theory Spec2Isabelle
  imports Main
begin

section \<open>The ShadowRealm builtins of builtins-shadowrealm-gen.cc\<close>

text \<open>
  The file holds two builtins written with the code stub assembler:
  \<^verbatim>\<open>ShadowRealmGetWrappedValue\<close> (the spec's \<open>ValueWrapper.wrap\<close>) and
  \<^verbatim>\<open>CallWrappedFunction\<close> (the spec's \<open>CallTrampoline.invoke\<close>).
  They are embedded as functions on an explicit state: the heap of objects the builtins
  inspect and allocate, and a trace that records, in order, every entry into
  \<^verbatim>\<open>ShadowRealmGetWrappedValue\<close> and every call of the wrapped target. The trace is
  never read by the builtins; it only makes "is executed", "in this order" and "this many
  times" statable.
\<close>

subsection \<open>Values, heap objects and contexts\<close>

text \<open>A context (the spec's realm) is an opaque handle.\<close>

type_synonym Context = nat

type_synonym addr = nat

text \<open>
  A tagged value \<^verbatim>\<open>TNode<Object>\<close>: a small integer, the undefined root
  (\<^verbatim>\<open>RootIndex::kUndefinedValue\<close>), or a reference to a heap object.
\<close>

datatype Object = Smi int | Undefined | HeapObject addr

text \<open>
  The fields of a \<^verbatim>\<open>JSWrappedFunction\<close>, named by their offsets, and the native
  context whose \<^verbatim>\<open>WRAPPED_FUNCTION_MAP_INDEX\<close> slot gave the object its map.
\<close>

record JSWrappedFunction =
  map_native_context :: Context
  kWrappedTargetFunctionOffset :: Object
  kContextOffset :: Context

text \<open>
  A heap object as far as the builtins look at it: something that is no \<^verbatim>\<open>JSReceiver\<close>
  (a string, a heap number, a symbol, ...), a receiver other than a wrapped function with
  the \<^verbatim>\<open>is_callable\<close> bit of its map, or a wrapped function. The map of a wrapped
  function is callable.
\<close>

datatype heap_object =
    NonReceiver
  | JSReceiver bool
  | WrappedFunction JSWrappedFunction

text \<open>
  The heap is the list of objects allocated so far; the address of an object is its
  index, and allocation appends. Objects are never moved or freed by the builtins. A
  Smi is no heap object, the undefined root is one that is no receiver, and a reference
  beyond the allocated objects, which no running program holds, loads nothing.
\<close>

type_synonym heap = "heap_object list"

fun LoadHeapObject :: "heap \<Rightarrow> Object \<Rightarrow> heap_object option" where
  "LoadHeapObject h (Smi n) = None"
| "LoadHeapObject h Undefined = Some NonReceiver"
| "LoadHeapObject h (HeapObject a) = (if a < length h then Some (h ! a) else None)"

fun TaggedIsSmi :: "Object \<Rightarrow> bool" where
  "TaggedIsSmi (Smi n) = True"
| "TaggedIsSmi v = False"

definition IsJSReceiver :: "heap \<Rightarrow> Object \<Rightarrow> bool" where
  "IsJSReceiver h v =
     (case LoadHeapObject h v of
        Some (JSReceiver c) \<Rightarrow> True
      | Some (WrappedFunction w) \<Rightarrow> True
      | _ \<Rightarrow> False)"

definition IsCallable :: "heap \<Rightarrow> Object \<Rightarrow> bool" where
  "IsCallable h v =
     (case LoadHeapObject h v of
        Some (JSReceiver c) \<Rightarrow> c
      | Some (WrappedFunction w) \<Rightarrow> True
      | _ \<Rightarrow> False)"

definition IsJSWrappedFunction :: "heap \<Rightarrow> Object \<Rightarrow> bool" where
  "IsJSWrappedFunction h v =
     (case LoadHeapObject h v of Some (WrappedFunction w) \<Rightarrow> True | _ \<Rightarrow> False)"

subsection \<open>Errors and completions\<close>

datatype MessageTemplate = kNotCallable | kCallShadowRealmFunctionThrown

text \<open>The errors the spec names, each with the context it is created in.\<close>

datatype error =
    NotCallableError Context
  | BridgedCallFailedError Context
  | StackOverflowError Context

text \<open>
  Modelled from the spec: \<^verbatim>\<open>ThrowTypeError\<close> and the message templates are not
  in builtins-shadowrealm-gen.cc. The spec (sections 4.1, 4.2 and 7) names the error
  raised for \<^verbatim>\<open>kNotCallable\<close> \<open>NotCallableError\<close> and the one raised for
  \<^verbatim>\<open>kCallShadowRealmFunctionThrown\<close> \<open>BridgedCallFailedError\<close>, says that the latter
  is opaque (the original error's identity, message and realm are not forwarded), and
  attributes each to a realm. The builtins pass the offending value or the caught
  exception as the template's argument; by the spec it does not show in the error.
\<close>

fun ThrowTypeError :: "Context \<Rightarrow> MessageTemplate \<Rightarrow> Object \<Rightarrow> error" where
  "ThrowTypeError ctx kNotCallable arg = NotCallableError ctx"
| "ThrowTypeError ctx kCallShadowRealmFunctionThrown arg = BridgedCallFailedError ctx"

text \<open>
  How a builtin can stop without a value: by throwing, or at \<^verbatim>\<open>Unreachable()\<close>,
  which aborts and is no exception.
\<close>

datatype abort = Throw error | Unreachable

text \<open>The completion of the call of the target: a value, or a thrown exception.\<close>

datatype completion = Normal Object | Abrupt Object

subsection \<open>The host\<close>

text \<open>
  What the builtins use and the file does not define:
  \<^item> \<open>LoadNativeContext\<close>: the native context of a context;
  \<^item> \<open>ownerRealmOf\<close>: the realm a callable belongs to (see \<open>GetFunctionRealm\<close>);
  \<^item> \<open>CallVarargs\<close>: the stub \<^verbatim>\<open>CodeFactory::CallVarargs\<close>, called with the context,
    the target, the number of arguments already on the stack, the length of the
    elements array and the array; the target's body may run any code, so the stub
    takes the heap and returns the heap it leaves;
  \<^item> \<open>checkStackBudget\<close>: whether \<^verbatim>\<open>PerformStackCheck\<close> finds the stack within its
    limit at the entry of this activation.
\<close>

record host =
  LoadNativeContext :: "Context \<Rightarrow> Context"
  ownerRealmOf :: "heap \<Rightarrow> Object \<Rightarrow> Context"
  CallVarargs :: "Context \<Rightarrow> Object \<Rightarrow> nat \<Rightarrow> nat \<Rightarrow> Object list \<Rightarrow> heap \<Rightarrow> completion \<times> heap"
  checkStackBudget :: bool

text \<open>
  Modelled from the spec: \<^verbatim>\<open>GetFunctionRealm\<close> is not in
  builtins-shadowrealm-gen.cc. By the spec (section 4.2, steps 3 and 9, and section 6)
  it is the external resolution \<open>ownerRealmOf(callable) -> Realm\<close>, and it leaves by
  its not-callable exit (\<open>None\<close> here, the label \<^verbatim>\<open>target_not_callable\<close>) only for a
  target that is not a callable object.
\<close>

definition GetFunctionRealm :: "host \<Rightarrow> heap \<Rightarrow> Context \<Rightarrow> Object \<Rightarrow> Context option" where
  "GetFunctionRealm H h ctx target =
     (if IsCallable h target then Some (ownerRealmOf H h target) else None)"

text \<open>
  Modelled from the spec: \<^verbatim>\<open>PerformStackCheck\<close> is not in
  builtins-shadowrealm-gen.cc. By the spec (section 6) it is
  \<open>checkStackBudget() -> ok | raises StackOverflowError\<close>; \<open>None\<close> is ok.
\<close>

definition PerformStackCheck :: "host \<Rightarrow> Context \<Rightarrow> error option" where
  "PerformStackCheck H ctx = (if checkStackBudget H then None else Some (StackOverflowError ctx))"

subsection \<open>State\<close>

datatype event =
    GetWrappedValue Context Context Object
  | CallTarget Context Object "Object list"

record state =
  heap :: heap
  trace :: "event list"

definition log_event :: "event \<Rightarrow> state \<Rightarrow> state" where
  "log_event e s = s\<lparr>trace := trace s @ [e]\<rparr>"

subsection \<open>ShadowRealmGetWrappedValue\<close>

text \<open>
  \<^verbatim>\<open>AllocateJSWrappedFunction(context)\<close> allocates an object from the wrapped-function
  map of the native context of \<open>ctx\<close>. The builtin stores the two fields right after
  the allocation and before anything else runs, so the model allocates the object with
  both fields set; it returns the new object's address.
\<close>

definition AllocateJSWrappedFunction ::
    "host \<Rightarrow> Context \<Rightarrow> Object \<Rightarrow> Context \<Rightarrow> heap \<Rightarrow> addr \<times> heap" where
  "AllocateJSWrappedFunction H ctx target_field context_field h =
     (length h,
      h @ [WrappedFunction \<lparr>map_native_context = LoadNativeContext H ctx,
                            kWrappedTargetFunctionOffset = target_field,
                            kContextOffset = context_field\<rparr>])"

text \<open>
  The parameters are \<^verbatim>\<open>kContext\<close>, \<^verbatim>\<open>kCreationContext\<close> and \<^verbatim>\<open>kValue\<close>, in the order
  in which \<^verbatim>\<open>CallBuiltin\<close> passes them. The target of the new wrapper is the value, or,
  when the value is a wrapped function, that function's own target.
\<close>

definition ShadowRealmGetWrappedValue ::
    "host \<Rightarrow> Context \<Rightarrow> Context \<Rightarrow> Object \<Rightarrow> state \<Rightarrow> (error + Object) \<times> state" where
  "ShadowRealmGetWrappedValue H ctx creation_context value s0 =
     (let s = log_event (GetWrappedValue ctx creation_context value) s0;
          h = heap s
      in if TaggedIsSmi value then (Inr value, s)
         else if \<not> IsJSReceiver h value then (Inr value, s)
         else if IsCallable h value then
           (let target = (case LoadHeapObject h value of
                            Some (WrappedFunction target_wrapped_function) \<Rightarrow>
                              kWrappedTargetFunctionOffset target_wrapped_function
                          | _ \<Rightarrow> value);
                (wrapped, h') = AllocateJSWrappedFunction H creation_context target creation_context h
            in (Inr (HeapObject wrapped), s\<lparr>heap := h'\<rparr>))
         else (Inl (ThrowTypeError ctx kNotCallable value), s))"

subsection \<open>CallWrappedFunction\<close>

text \<open>
  The loop \<^verbatim>\<open>BuildFastLoop\<close> runs over the arguments from index 0 in steps of 1: it
  wraps the argument at \<open>index\<close> and stores the result at \<open>index + 1\<close> of the elements
  array. A throwing \<^verbatim>\<open>CallBuiltin\<close> leaves the loop and the builtin.
\<close>

function BuildFastLoop ::
    "host \<Rightarrow> Context \<Rightarrow> Context \<Rightarrow> Object list \<Rightarrow> nat \<Rightarrow> Object list \<Rightarrow> state
       \<Rightarrow> (error + Object list) \<times> state" where
  "BuildFastLoop H caller_context target_context args index wrapped_args s =
     (if index < length args then
        (case ShadowRealmGetWrappedValue H caller_context target_context (args ! index) s of
           (Inl e, s') \<Rightarrow> (Inl e, s')
         | (Inr wrapped_value, s') \<Rightarrow>
             BuildFastLoop H caller_context target_context args (index + 1)
               (wrapped_args[index + 1 := wrapped_value]) s')
      else (Inr wrapped_args, s))"
  by pat_completeness auto
termination
  by (relation "measure (\<lambda>(H, cc, tc, args, index, wa, s). length args - index)") auto

declare BuildFastLoop.simps [simp del]

text \<open>
  Lines 120 to 150: the elements array of \<open>argc\<close> slots filled with undefined, the
  wrapped receiver stored at 0, then the loop. \<open>argc\<close> counts the receiver: the array
  of \<open>argc\<close> slots takes the receiver and argument \<open>i\<close> at \<open>i + 1\<close>.
\<close>

definition WrapReceiverAndArguments ::
    "host \<Rightarrow> Context \<Rightarrow> Context \<Rightarrow> Object \<Rightarrow> Object list \<Rightarrow> state
       \<Rightarrow> (error + Object list) \<times> state" where
  "WrapReceiverAndArguments H caller_context target_context receiver args s =
     (let argc = length args + 1;
          wrapped_args = replicate argc Undefined
      in case ShadowRealmGetWrappedValue H caller_context target_context receiver s of
           (Inl e, s1) \<Rightarrow> (Inl e, s1)
         | (Inr wrapped_receiver, s1) \<Rightarrow>
             BuildFastLoop H caller_context target_context args 0
               (wrapped_args[0 := wrapped_receiver]) s1)"

text \<open>
  The builtin: \<open>ctx\<close> is its \<^verbatim>\<open>kContext\<close> parameter, the context of the code that
  calls the wrapper; \<open>wrapped_function\<close> is the \<^verbatim>\<open>kFunction\<close> parameter, typed
  \<^verbatim>\<open>JSWrappedFunction\<close>, of which the builtin reads the two fields; the receiver and
  the arguments are what \<^verbatim>\<open>CodeStubArguments\<close> reads from the stack. The debug-only
  \<^verbatim>\<open>CSA_DCHECK\<close> is not part of the release code and not modelled. The elements array
  is assembler-internal and not an object of the modelled heap.
\<close>

definition CallWrappedFunction ::
    "host \<Rightarrow> Context \<Rightarrow> JSWrappedFunction \<Rightarrow> Object \<Rightarrow> Object list \<Rightarrow> state
       \<Rightarrow> (abort + Object) \<times> state" where
  "CallWrappedFunction H ctx wrapped_function receiver args s =
     (case PerformStackCheck H ctx of
        Some e \<Rightarrow> (Inl (Throw e), s)
      | None \<Rightarrow>
         (let target = kWrappedTargetFunctionOffset wrapped_function;
              caller_context = kContextOffset wrapped_function;
              argc = length args + 1
          in case GetFunctionRealm H (heap s) caller_context target of
               None \<Rightarrow> (Inl Unreachable, s)
             | Some target_context \<Rightarrow>
                (case WrapReceiverAndArguments H caller_context target_context receiver args s of
                   (Inl e, s2) \<Rightarrow> (Inl (Throw e), s2)
                 | (Inr wrapped_args, s2) \<Rightarrow>
                    (let s3 = log_event (CallTarget target_context target wrapped_args) s2
                     in case CallVarargs H target_context target 0 argc wrapped_args (heap s3) of
                          (Abrupt var_exception, h4) \<Rightarrow>
                            (Inl (Throw (ThrowTypeError ctx kCallShadowRealmFunctionThrown
                                           var_exception)),
                             s3\<lparr>heap := h4\<rparr>)
                        | (Normal result, h4) \<Rightarrow>
                            (case ShadowRealmGetWrappedValue H caller_context caller_context
                                    result (s3\<lparr>heap := h4\<rparr>) of
                               (Inl e, s5) \<Rightarrow> (Inl (Throw e), s5)
                             | (Inr wrapped_result, s5) \<Rightarrow> (Inr wrapped_result, s5))))))"

section \<open>Notions of the specification\<close>

subsection \<open>The three kinds of value\<close>

text \<open>
  The classification of spec section 3, read off the three tests of
  \<^verbatim>\<open>ShadowRealmGetWrappedValue\<close>: a primitive is a Smi or a value that is no
  \<^verbatim>\<open>JSReceiver\<close>; a callable object passes \<^verbatim>\<open>IsCallable\<close> (the definition
  \<open>IsCallable\<close> above); a non-callable object is a receiver that does not.
\<close>

definition IsPrimitive :: "heap \<Rightarrow> Object \<Rightarrow> bool" where
  "IsPrimitive h v = (if TaggedIsSmi v then True else \<not> IsJSReceiver h v)"

definition IsNonCallableObject :: "heap \<Rightarrow> Object \<Rightarrow> bool" where
  "IsNonCallableObject h v = (if IsJSReceiver h v then \<not> IsCallable h v else False)"

subsection \<open>Reading wrappers\<close>

text \<open>
  The spec's \<open>effectiveTarget\<close> (section 4.1, step 3): the target of a value that is a
  wrapper, the value itself otherwise.
\<close>

definition effectiveTarget :: "heap \<Rightarrow> Object \<Rightarrow> Object" where
  "effectiveTarget h v =
     (case LoadHeapObject h v of
        Some (WrappedFunction w) \<Rightarrow> kWrappedTargetFunctionOffset w
      | _ \<Rightarrow> v)"

text \<open>The \<open>target\<close> and the \<open>realm\<close> of a value that is a wrapper.\<close>

definition wrapper_target :: "heap \<Rightarrow> Object \<Rightarrow> Object option" where
  "wrapper_target h v =
     (case LoadHeapObject h v of
        Some (WrappedFunction w) \<Rightarrow> Some (kWrappedTargetFunctionOffset w)
      | _ \<Rightarrow> None)"

definition wrapper_realm :: "heap \<Rightarrow> Object \<Rightarrow> Context option" where
  "wrapper_realm h v =
     (case LoadHeapObject h v of
        Some (WrappedFunction w) \<Rightarrow> Some (kContextOffset w)
      | _ \<Rightarrow> None)"

text \<open>The same for the outcome of a wrap, in the heap the wrap leaves.\<close>

fun wrap_result_target :: "(error + Object) \<times> state \<Rightarrow> Object option" where
  "wrap_result_target (Inr v, s) = wrapper_target (heap s) v"
| "wrap_result_target (Inl e, s) = None"

fun wrap_result_realm :: "(error + Object) \<times> state \<Rightarrow> Context option" where
  "wrap_result_realm (Inr v, s) = wrapper_realm (heap s) v"
| "wrap_result_realm (Inl e, s) = None"

subsection \<open>The invariant of section 3\<close>

text \<open>
  The target of every wrapper in the heap is a callable object and is not itself a
  wrapper.
\<close>

definition target_invariant :: "heap \<Rightarrow> bool" where
  "target_invariant h =
     list_all (\<lambda>obj. case obj of
                 WrappedFunction w \<Rightarrow>
                   IsCallable h (kWrappedTargetFunctionOffset w) \<and>
                   \<not> IsJSWrappedFunction h (kWrappedTargetFunctionOffset w)
               | _ \<Rightarrow> True) h"

text \<open>
  A wrapping chain: the value is wrapped, the result is wrapped again, and so on, once for
  each pair of realm arguments of the list.
\<close>

fun wrap_chain ::
    "host \<Rightarrow> (Context \<times> Context) list \<Rightarrow> Object \<Rightarrow> state \<Rightarrow> (error + Object) \<times> state" where
  "wrap_chain H [] v s = (Inr v, s)"
| "wrap_chain H ((c, cc) # rs) v s =
     (case ShadowRealmGetWrappedValue H c cc v s of
        (Inl e, s') \<Rightarrow> (Inl e, s')
      | (Inr w, s') \<Rightarrow> wrap_chain H rs w s')"

subsection \<open>Marshalling in the words of the specification\<close>

text \<open>
  Section 4.2, steps 4 and 5: each value of the sequence is wrapped, in order, with the
  same two realm arguments; the results form a sequence of the same length and order; the
  first failure ends the marshalling. \<open>WrapReceiverAndArguments\<close> is compared with
  it below.
\<close>

fun wrap_in_order ::
    "host \<Rightarrow> Context \<Rightarrow> Context \<Rightarrow> Object list \<Rightarrow> state \<Rightarrow> (error + Object list) \<times> state" where
  "wrap_in_order H caller_realm target_realm [] s = (Inr [], s)"
| "wrap_in_order H caller_realm target_realm (v # vs) s =
     (case ShadowRealmGetWrappedValue H caller_realm target_realm v s of
        (Inl e, s') \<Rightarrow> (Inl e, s')
      | (Inr w, s') \<Rightarrow>
          (case wrap_in_order H caller_realm target_realm vs s' of
             (Inl e, s'') \<Rightarrow> (Inl e, s'')
           | (Inr ws, s'') \<Rightarrow> (Inr (w # ws), s'')))"

subsection \<open>Reading traces\<close>

fun is_wrap_entry :: "event \<Rightarrow> bool" where
  "is_wrap_entry (GetWrappedValue c cc v) = True"
| "is_wrap_entry (CallTarget c t xs) = False"

text \<open>
  The events one activation adds to the trace, and among them the entries into
  \<^verbatim>\<open>ShadowRealmGetWrappedValue\<close> before and after the call of the target.
\<close>

definition activation :: "state \<Rightarrow> state \<Rightarrow> event list" where
  "activation s s' = drop (length (trace s)) (trace s')"

definition wrap_entries_before_call :: "event list \<Rightarrow> nat" where
  "wrap_entries_before_call evs = length (takeWhile is_wrap_entry evs)"

definition wrap_entries_after_call :: "event list \<Rightarrow> nat" where
  "wrap_entries_after_call evs = length (filter is_wrap_entry (dropWhile is_wrap_entry evs))"

subsection \<open>A concrete heap and hosts\<close>

text \<open>
  Realm 1 calls, realm 2 owns the callables. The heap holds a callable at 0, a plain
  object at 1, a string at 2 and, at 3, a wrapper of the callable made for realm 1. The
  target of \<open>host0\<close> returns the Smi 7; that of \<open>throwing_host exn\<close> throws \<open>exn\<close>;
  \<open>exhausted_host\<close> has no stack budget left.
\<close>

definition host0 :: host where
  "host0 = \<lparr>LoadNativeContext = (\<lambda>c. c),
            ownerRealmOf = (\<lambda>h t. 2),
            CallVarargs = (\<lambda>c t n m xs h. (Normal (Smi 7), h)),
            checkStackBudget = True\<rparr>"

definition throwing_host :: "Object \<Rightarrow> host" where
  "throwing_host exn = host0\<lparr>CallVarargs := (\<lambda>c t n m xs h. (Abrupt exn, h))\<rparr>"

definition exhausted_host :: host where
  "exhausted_host = host0\<lparr>checkStackBudget := False\<rparr>"

definition wrapper0 :: JSWrappedFunction where
  "wrapper0 = \<lparr>map_native_context = 1, kWrappedTargetFunctionOffset = HeapObject 0,
               kContextOffset = 1\<rparr>"

definition heap0 :: heap where
  "heap0 = [JSReceiver True, JSReceiver False, NonReceiver, WrappedFunction wrapper0]"

definition state0 :: state where
  "state0 = \<lparr>heap = heap0, trace = []\<rparr>"

section \<open>Properties of the model\<close>

lemmas model_defs =
  ShadowRealmGetWrappedValue_def AllocateJSWrappedFunction_def log_event_def Let_def
  IsJSReceiver_def IsCallable_def IsJSWrappedFunction_def IsPrimitive_def
  IsNonCallableObject_def

lemmas invoke_defs =
  CallWrappedFunction_def PerformStackCheck_def GetFunctionRealm_def
  WrapReceiverAndArguments_def BuildFastLoop.simps

lemmas example_defs =
  host0_def throwing_host_def exhausted_host_def wrapper0_def heap0_def state0_def

lemma IsCallable_IsJSReceiver: "IsCallable h v \<Longrightarrow> IsJSReceiver h v"
  by (auto simp: IsCallable_def IsJSReceiver_def split: option.splits heap_object.splits)

lemma IsJSReceiver_not_Smi: "IsJSReceiver h v \<Longrightarrow> \<not> TaggedIsSmi v"
  by (cases v) (auto simp: IsJSReceiver_def)

lemma IsJSWrappedFunction_IsCallable: "IsJSWrappedFunction h v \<Longrightarrow> IsCallable h v"
  by (auto simp: IsCallable_def IsJSWrappedFunction_def split: option.splits heap_object.splits)

lemma wrap_primitive:
  "IsPrimitive (heap s) v \<Longrightarrow>
   ShadowRealmGetWrappedValue H c cc v s = (Inr v, log_event (GetWrappedValue c cc v) s)"
  by (auto simp: ShadowRealmGetWrappedValue_def IsPrimitive_def Let_def log_event_def split: if_splits)

lemma wrap_non_callable:
  "IsNonCallableObject (heap s) v \<Longrightarrow>
   ShadowRealmGetWrappedValue H c cc v s =
     (Inl (NotCallableError c), log_event (GetWrappedValue c cc v) s)"
  by (auto simp: ShadowRealmGetWrappedValue_def IsNonCallableObject_def Let_def log_event_def
      dest: IsJSReceiver_not_Smi split: if_splits)

lemma wrap_callable:
  "IsCallable (heap s) v \<Longrightarrow>
   ShadowRealmGetWrappedValue H c cc v s =
     (Inr (HeapObject (length (heap s))),
      s\<lparr>heap := heap s @ [WrappedFunction \<lparr>map_native_context = LoadNativeContext H cc,
                            kWrappedTargetFunctionOffset = effectiveTarget (heap s) v,
                            kContextOffset = cc\<rparr>],
        trace := trace s @ [GetWrappedValue c cc v]\<rparr>)"
  by (auto simp: ShadowRealmGetWrappedValue_def Let_def log_event_def effectiveTarget_def
      AllocateJSWrappedFunction_def
      dest: IsJSReceiver_not_Smi IsCallable_IsJSReceiver split: if_splits)

lemma classify: "IsPrimitive h v \<or> IsNonCallableObject h v \<or> IsCallable h v"
  by (auto simp: IsPrimitive_def IsNonCallableObject_def)

lemma BuildFastLoop_wrap_in_order:
  "index \<le> length args \<Longrightarrow> length wa = length args + 1 \<Longrightarrow>
   BuildFastLoop H c t args index wa s =
     (case wrap_in_order H c t (drop index args) s of
        (Inl e, s') \<Rightarrow> (Inl e, s')
      | (Inr ws, s') \<Rightarrow> (Inr (take (index + 1) wa @ ws), s'))"
proof (induction H c t args index wa s rule: BuildFastLoop.induct)
  case (1 H c t args index wa s)
  show ?case
  proof (cases "index < length args")
    case False
    with "1.prems" show ?thesis
      by (simp add: BuildFastLoop.simps)
  next
    case True
    then have d: "drop index args = args ! index # drop (index + 1) args"
      by (simp add: Cons_nth_drop_Suc)
    obtain r s' where w: "ShadowRealmGetWrappedValue H c t (args ! index) s = (r, s')"
      by (cases "ShadowRealmGetWrappedValue H c t (args ! index) s")
    show ?thesis
    proof (cases r)
      case (Inl e)
      with True w d show ?thesis
        by (simp add: BuildFastLoop.simps [of H c t args index])
    next
      case (Inr wv)
      have ih: "BuildFastLoop H c t args (index + 1) (wa[index + 1 := wv]) s' =
          (case wrap_in_order H c t (drop (index + 1) args) s' of
             (Inl e, s'') \<Rightarrow> (Inl e, s'')
           | (Inr ws, s'') \<Rightarrow> (Inr (take (index + 1 + 1) (wa[index + 1 := wv]) @ ws), s''))"
        using "1.IH" [OF True w [symmetric] Inr] True "1.prems" by simp
      have tk: "take (index + 1 + 1) (wa[index + 1 := wv]) = take (index + 1) wa @ [wv]"
        using True "1.prems" by (simp add: take_Suc_conv_app_nth)
      show ?thesis
        using True w d Inr ih tk
        by (simp add: BuildFastLoop.simps [of H c t args index] split: prod.splits sum.splits)
    qed
  qed
qed

lemma WrapReceiverAndArguments_wrap_in_order:
  "WrapReceiverAndArguments H c t receiver args s = wrap_in_order H c t (receiver # args) s"
proof -
  obtain r s1 where w: "ShadowRealmGetWrappedValue H c t receiver s = (r, s1)"
    by (cases "ShadowRealmGetWrappedValue H c t receiver s")
  show ?thesis
  proof (cases r)
    case (Inl e)
    with w show ?thesis by (simp add: WrapReceiverAndArguments_def)
  next
    case (Inr wr)
    have "BuildFastLoop H c t args 0 ((replicate (length args + 1) Undefined)[0 := wr]) s1 =
        (case wrap_in_order H c t (drop 0 args) s1 of
           (Inl e, s') \<Rightarrow> (Inl e, s')
         | (Inr ws, s') \<Rightarrow>
             (Inr (take (0 + 1) ((replicate (length args + 1) Undefined)[0 := wr]) @ ws), s'))"
      by (rule BuildFastLoop_wrap_in_order) simp_all
    with w Inr show ?thesis
      by (simp add: WrapReceiverAndArguments_def Let_def split: prod.splits sum.splits)
  qed
qed

lemma LoadHeapObject_append:
  "LoadHeapObject h v = Some obj \<Longrightarrow> LoadHeapObject (h @ xs) v = Some obj"
  by (cases v) (auto simp: nth_append split: if_splits)

lemma IsCallable_append: "IsCallable h v \<Longrightarrow> IsCallable (h @ xs) v"
  by (auto simp: IsCallable_def LoadHeapObject_append split: option.splits)

lemma IsNonCallableObject_append:
  "IsNonCallableObject h v \<Longrightarrow> IsNonCallableObject (h @ xs) v"
  by (auto simp: IsNonCallableObject_def IsCallable_def IsJSReceiver_def LoadHeapObject_append
      split: option.splits heap_object.splits if_splits)

lemma IsJSWrappedFunction_append:
  "IsCallable h v \<Longrightarrow> IsJSWrappedFunction (h @ xs) v = IsJSWrappedFunction h v"
  by (auto simp: IsCallable_def IsJSWrappedFunction_def LoadHeapObject_append
      split: option.splits heap_object.splits)

lemma wrap_effect:
  assumes "ShadowRealmGetWrappedValue H c cc v s = (r, s')"
  shows "trace s' = trace s @ [GetWrappedValue c cc v]"
    and "\<exists>xs. heap s' = heap s @ xs"
  using assms classify [of "heap s" v]
  by (auto simp: wrap_primitive wrap_non_callable wrap_callable log_event_def)

lemma wrap_in_order_effect:
  "wrap_in_order H c t vs s = (r, s') \<Longrightarrow>
   (\<exists>k \<le> length vs. trace s' = trace s @ map (GetWrappedValue c t) (take k vs)) \<and>
   (\<exists>xs. heap s' = heap s @ xs)"
proof (induction vs arbitrary: s r s')
  case Nil
  then show ?case by simp
next
  case (Cons v vs)
  obtain r1 s1 where w: "ShadowRealmGetWrappedValue H c t v s = (r1, s1)"
    by (cases "ShadowRealmGetWrappedValue H c t v s")
  note e = wrap_effect [OF w]
  show ?case
  proof (cases r1)
    case (Inl err)
    with Cons.prems w have "s' = s1" by simp
    with e have "trace s' = trace s @ map (GetWrappedValue c t) (take 1 (v # vs))"
      by simp
    moreover have "1 \<le> length (v # vs)" by simp
    ultimately show ?thesis using e(2) \<open>s' = s1\<close> by blast
  next
    case (Inr wv)
    obtain r2 s2 where r: "wrap_in_order H c t vs s1 = (r2, s2)"
      by (cases "wrap_in_order H c t vs s1")
    from Cons.prems w Inr r have "s' = s2"
      by (auto split: sum.splits)
    from Cons.IH [OF r] obtain k xs where
      k: "k \<le> length vs" "trace s2 = trace s1 @ map (GetWrappedValue c t) (take k vs)"
      and h: "heap s2 = heap s1 @ xs"
      by blast
    from k e(1) have "trace s2 = trace s @ map (GetWrappedValue c t) (take (Suc k) (v # vs))"
      by simp
    moreover have "Suc k \<le> length (v # vs)" using k by simp
    moreover from h e(2) have "\<exists>ys. heap s2 = heap s @ ys" by auto
    ultimately show ?thesis using \<open>s' = s2\<close> by blast
  qed
qed

lemma wrap_in_order_success:
  "wrap_in_order H c t vs s = (Inr ws, s') \<Longrightarrow>
   length ws = length vs \<and> trace s' = trace s @ map (GetWrappedValue c t) vs"
proof (induction vs arbitrary: s ws s')
  case Nil
  then show ?case by simp
next
  case (Cons v vs)
  obtain r1 s1 where w: "ShadowRealmGetWrappedValue H c t v s = (r1, s1)"
    by (cases "ShadowRealmGetWrappedValue H c t v s")
  obtain r2 s2 where r: "wrap_in_order H c t vs s1 = (r2, s2)"
    by (cases "wrap_in_order H c t vs s1")
  from Cons.prems w r obtain wv ws' where
    eq: "r1 = Inr wv" "r2 = Inr ws'" "ws = wv # ws'" "s' = s2"
    by (auto split: sum.splits)
  from Cons.IH [of s1 ws' s2] r eq
  have "length ws' = length vs" "trace s2 = trace s1 @ map (GetWrappedValue c t) vs"
    by simp_all
  with eq wrap_effect(1) [OF w] show ?case by simp
qed

lemma wrap_in_order_non_callable:
  "\<exists>v \<in> set vs. IsNonCallableObject (heap s) v \<Longrightarrow>
   fst (wrap_in_order H c t vs s) = Inl (NotCallableError c)"
proof (induction vs arbitrary: s)
  case Nil
  then show ?case by simp
next
  case (Cons v vs)
  obtain r1 s1 where w: "ShadowRealmGetWrappedValue H c t v s = (r1, s1)"
    by (cases "ShadowRealmGetWrappedValue H c t v s")
  show ?case
  proof (cases "IsNonCallableObject (heap s) v")
    case True
    then show ?thesis by (simp add: wrap_non_callable)
  next
    case False
    with Cons.prems obtain x where x: "x \<in> set vs" "IsNonCallableObject (heap s) x"
      by auto
    from wrap_effect(2) [OF w] obtain xs where "heap s1 = heap s @ xs" ..
    with x have "\<exists>v \<in> set vs. IsNonCallableObject (heap s1) v"
      using IsNonCallableObject_append by auto
    from Cons.IH [OF this] have ih: "fst (wrap_in_order H c t vs s1) = Inl (NotCallableError c)" .
    from False classify [of "heap s" v] have "IsPrimitive (heap s) v \<or> IsCallable (heap s) v"
      by auto
    then obtain wv where "r1 = Inr wv"
      using w by (auto simp: wrap_primitive wrap_callable)
    with w ih show ?thesis
      by (cases "wrap_in_order H c t vs s1") (auto split: sum.splits)
  qed
qed

lemma wrapper_target_IsJSWrappedFunction:
  "wrapper_target h v = Some t \<Longrightarrow> IsJSWrappedFunction h v"
  by (auto simp: wrapper_target_def IsJSWrappedFunction_def split: option.splits heap_object.splits)

lemma effectiveTarget_wrapper: "wrapper_target h v = Some t \<Longrightarrow> effectiveTarget h v = t"
  by (auto simp: wrapper_target_def effectiveTarget_def split: option.splits heap_object.splits)

lemma effectiveTarget_other: "\<not> IsJSWrappedFunction h v \<Longrightarrow> effectiveTarget h v = v"
  by (auto simp: IsJSWrappedFunction_def effectiveTarget_def split: option.splits heap_object.splits)

lemma wrap_callable_target:
  "IsCallable (heap s) v \<Longrightarrow>
   wrap_result_target (ShadowRealmGetWrappedValue H c cc v s) = Some (effectiveTarget (heap s) v)"
  by (simp add: wrap_callable wrapper_target_def)

lemma wrap_callable_realm:
  "IsCallable (heap s) v \<Longrightarrow>
   wrap_result_realm (ShadowRealmGetWrappedValue H c cc v s) = Some cc"
  by (simp add: wrap_callable wrapper_realm_def)

lemma target_invariant_iff:
  "target_invariant h \<longleftrightarrow>
   (\<forall>a w. a < length h \<longrightarrow> h ! a = WrappedFunction w \<longrightarrow>
      IsCallable h (kWrappedTargetFunctionOffset w) \<and>
      \<not> IsJSWrappedFunction h (kWrappedTargetFunctionOffset w))"
  by (auto simp: target_invariant_def list_all_length split: heap_object.splits)

lemma target_invariant_wrapper:
  "target_invariant h \<Longrightarrow> wrapper_target h v = Some t \<Longrightarrow>
   IsCallable h t \<and> \<not> IsJSWrappedFunction h t"
  by (cases v)
     (auto simp: target_invariant_iff wrapper_target_def split: if_splits heap_object.splits)

lemma effectiveTarget_invariant:
  "target_invariant h \<Longrightarrow> IsCallable h v \<Longrightarrow>
   IsCallable h (effectiveTarget h v) \<and> \<not> IsJSWrappedFunction h (effectiveTarget h v)"
proof (cases "IsJSWrappedFunction h v")
  case True
  assume inv: "target_invariant h"
  from True obtain t where t: "wrapper_target h v = Some t"
    by (auto simp: IsJSWrappedFunction_def wrapper_target_def split: option.splits heap_object.splits)
  with inv show ?thesis
    using target_invariant_wrapper effectiveTarget_wrapper by metis
next
  case False
  assume "IsCallable h v"
  with False show ?thesis by (simp add: effectiveTarget_other)
qed

lemma target_invariant_alloc:
  assumes inv: "target_invariant h"
    and t: "IsCallable h t" "\<not> IsJSWrappedFunction h t"
    and w: "kWrappedTargetFunctionOffset w = t"
  shows "target_invariant (h @ [WrappedFunction w])"
  unfolding target_invariant_iff
proof (intro allI impI)
  fix a w'
  assume a: "a < length (h @ [WrappedFunction w])"
    and obj: "(h @ [WrappedFunction w]) ! a = WrappedFunction w'"
  have "IsCallable h (kWrappedTargetFunctionOffset w') \<and>
        \<not> IsJSWrappedFunction h (kWrappedTargetFunctionOffset w')"
  proof (cases "a < length h")
    case True
    with obj have "h ! a = WrappedFunction w'" by (simp add: nth_append)
    with inv True show ?thesis by (auto simp: target_invariant_iff)
  next
    case False
    with a obj have "w' = w" by (simp add: nth_append)
    with t w show ?thesis by simp
  qed
  then show "IsCallable (h @ [WrappedFunction w]) (kWrappedTargetFunctionOffset w') \<and>
        \<not> IsJSWrappedFunction (h @ [WrappedFunction w]) (kWrappedTargetFunctionOffset w')"
    by (simp add: IsCallable_append IsJSWrappedFunction_append)
qed

lemma wrap_preserves_target_invariant:
  assumes inv: "target_invariant (heap s)"
  shows "target_invariant (heap (snd (ShadowRealmGetWrappedValue H c cc v s)))"
proof -
  consider "IsPrimitive (heap s) v" | "IsNonCallableObject (heap s) v" | "IsCallable (heap s) v"
    using classify by blast
  then show ?thesis
  proof cases
    case 1
    with inv show ?thesis by (simp add: wrap_primitive log_event_def)
  next
    case 2
    with inv show ?thesis by (simp add: wrap_non_callable log_event_def)
  next
    case 3
    have "target_invariant (heap s @ [WrappedFunction
            \<lparr>map_native_context = LoadNativeContext H cc,
             kWrappedTargetFunctionOffset = effectiveTarget (heap s) v,
             kContextOffset = cc\<rparr>])"
      using effectiveTarget_invariant [OF inv 3]
      by (intro target_invariant_alloc [OF inv]) simp_all
    with 3 show ?thesis by (simp add: wrap_callable)
  qed
qed

lemma wrap_chain_target:
  assumes f: "IsCallable (heap s) f" "\<not> IsJSWrappedFunction (heap s) f"
    and v: "v = f \<or> wrapper_target (heap s) v = Some f"
    and rs: "rs \<noteq> []"
  shows "wrap_result_target (wrap_chain H rs v s) = Some f"
  using f v rs
proof (induction rs arbitrary: v s)
  case Nil
  then show ?case by simp
next
  case (Cons r rs)
  obtain c cc where r: "r = (c, cc)" by (cases r)
  from Cons.prems have cv: "IsCallable (heap s) v"
    using wrapper_target_IsJSWrappedFunction IsJSWrappedFunction_IsCallable by blast
  from Cons.prems have et: "effectiveTarget (heap s) v = f"
    using effectiveTarget_wrapper effectiveTarget_other by blast
  let ?w = "HeapObject (length (heap s))"
  obtain s1 where step: "ShadowRealmGetWrappedValue H c cc v s = (Inr ?w, s1)"
    and h1: "heap s1 = heap s @ [WrappedFunction \<lparr>map_native_context = LoadNativeContext H cc,
                            kWrappedTargetFunctionOffset = f, kContextOffset = cc\<rparr>]"
    using cv et by (simp add: wrap_callable)
  have tw: "wrapper_target (heap s1) ?w = Some f"
    by (simp add: h1 wrapper_target_def)
  have f1: "IsCallable (heap s1) f" "\<not> IsJSWrappedFunction (heap s1) f"
    using Cons.prems(1,2) by (simp_all add: h1 IsCallable_append IsJSWrappedFunction_append)
  show ?case
  proof (cases "rs = []")
    case True
    with r step tw show ?thesis by simp
  next
    case False
    from Cons.IH [OF f1 _ False, of ?w] tw
    have "wrap_result_target (wrap_chain H rs ?w s1) = Some f" by simp
    with r step show ?thesis by simp
  qed
qed

lemma CallWrappedFunction_returns:
  assumes "checkStackBudget H"
    and "IsCallable (heap s) (kWrappedTargetFunctionOffset w)"
    and "wrap_in_order H (kContextOffset w)
           (ownerRealmOf H (heap s) (kWrappedTargetFunctionOffset w)) (receiver # args) s =
           (Inr ws, s1)"
    and "CallVarargs H (ownerRealmOf H (heap s) (kWrappedTargetFunctionOffset w))
           (kWrappedTargetFunctionOffset w) 0 (length args + 1) ws (heap s1) = (Normal r, h2)"
  shows "CallWrappedFunction H ctx w receiver args s =
           (case ShadowRealmGetWrappedValue H (kContextOffset w) (kContextOffset w) r
                   (s1\<lparr>trace := trace s1 @
                         [CallTarget (ownerRealmOf H (heap s) (kWrappedTargetFunctionOffset w))
                            (kWrappedTargetFunctionOffset w) ws],
                       heap := h2\<rparr>) of
              (Inl e, s3) \<Rightarrow> (Inl (Throw e), s3)
            | (Inr v, s3) \<Rightarrow> (Inr v, s3))"
  using assms
  by (simp add: CallWrappedFunction_def PerformStackCheck_def GetFunctionRealm_def Let_def
      log_event_def WrapReceiverAndArguments_wrap_in_order)

lemma CallWrappedFunction_returns_trace:
  assumes "checkStackBudget H"
    and "IsCallable (heap s) (kWrappedTargetFunctionOffset w)"
    and "wrap_in_order H (kContextOffset w)
           (ownerRealmOf H (heap s) (kWrappedTargetFunctionOffset w)) (receiver # args) s =
           (Inr ws, s1)"
    and "CallVarargs H (ownerRealmOf H (heap s) (kWrappedTargetFunctionOffset w))
           (kWrappedTargetFunctionOffset w) 0 (length args + 1) ws (heap s1) = (Normal r, h2)"
  shows "trace (snd (CallWrappedFunction H ctx w receiver args s)) =
           trace s @
           map (GetWrappedValue (kContextOffset w)
                  (ownerRealmOf H (heap s) (kWrappedTargetFunctionOffset w))) (receiver # args) @
           [CallTarget (ownerRealmOf H (heap s) (kWrappedTargetFunctionOffset w))
              (kWrappedTargetFunctionOffset w) ws,
            GetWrappedValue (kContextOffset w) (kContextOffset w) r]"
proof -
  let ?R1 = "kContextOffset w"
  let ?R2 = "ownerRealmOf H (heap s) (kWrappedTargetFunctionOffset w)"
  let ?s2 = "s1\<lparr>trace := trace s1 @ [CallTarget ?R2 (kWrappedTargetFunctionOffset w) ws],
                heap := h2\<rparr>"
  obtain r3 s3 where w3: "ShadowRealmGetWrappedValue H ?R1 ?R1 r ?s2 = (r3, s3)"
    by (cases "ShadowRealmGetWrappedValue H ?R1 ?R1 r ?s2")
  from wrap_in_order_success [OF assms(3)]
  have t1: "trace s1 = trace s @ map (GetWrappedValue ?R1 ?R2) (receiver # args)"
    by simp
  from wrap_effect(1) [OF w3] t1
  have "trace s3 = trace s @ map (GetWrappedValue ?R1 ?R2) (receiver # args) @
          [CallTarget ?R2 (kWrappedTargetFunctionOffset w) ws, GetWrappedValue ?R1 ?R1 r]"
    by simp
  moreover have "snd (CallWrappedFunction H ctx w receiver args s) = s3"
    using CallWrappedFunction_returns [OF assms, of ctx] w3 by (cases r3) simp_all
  ultimately show ?thesis by simp
qed

lemma takeWhile_wrap_entries:
  "takeWhile is_wrap_entry (map (GetWrappedValue c t) vs @ CallTarget c' f ws # evs) =
     map (GetWrappedValue c t) vs"
  by (induction vs) simp_all

lemma dropWhile_wrap_entries:
  "dropWhile is_wrap_entry (map (GetWrappedValue c t) vs @ CallTarget c' f ws # evs) =
     CallTarget c' f ws # evs"
  by (induction vs) simp_all

lemma wrap_target_callable:
  assumes inv: "target_invariant (heap s0)"
    and wrap: "ShadowRealmGetWrappedValue H c cc v s0 = (Inr wv, s)"
    and new: "IsCallable (heap s0) v"
    and w: "LoadHeapObject (heap s) wv = Some (WrappedFunction w)"
  shows "IsCallable (heap s) (kWrappedTargetFunctionOffset w)"
  using assms effectiveTarget_invariant [OF inv new]
  by (auto simp: wrap_callable IsCallable_append)

lemma IsCallable_allocated: "IsCallable h v \<Longrightarrow> \<exists>a < length h. v = HeapObject a"
  by (cases v) (auto simp: IsCallable_def split: if_splits)

lemma activation_append: "trace s' = trace s @ evs \<Longrightarrow> activation s s' = evs"
  by (simp add: activation_def)

lemma wrapper_target_allocated: "wrapper_target h v = Some t \<Longrightarrow> \<exists>a < length h. v = HeapObject a"
  using wrapper_target_IsJSWrappedFunction IsJSWrappedFunction_IsCallable IsCallable_allocated
  by blast

lemma wrap_wrapper:
  assumes "wrapper_target (heap s) v = Some t"
  shows "ShadowRealmGetWrappedValue H c cc v s =
     (Inr (HeapObject (length (heap s))),
      s\<lparr>heap := heap s @ [WrappedFunction \<lparr>map_native_context = LoadNativeContext H cc,
                            kWrappedTargetFunctionOffset = t,
                            kContextOffset = cc\<rparr>],
        trace := trace s @ [GetWrappedValue c cc v]\<rparr>)"
proof -
  from assms have "IsCallable (heap s) v"
    using wrapper_target_IsJSWrappedFunction IsJSWrappedFunction_IsCallable by blast
  then show ?thesis
    using assms by (simp add: wrap_callable effectiveTarget_wrapper)
qed

lemma wrap_chain_heap:
  assumes f: "IsCallable (heap s) f" "\<not> IsJSWrappedFunction (heap s) f"
    and v: "v = f \<or> wrapper_target (heap s) v = Some f"
  shows "heap (snd (wrap_chain H rs v s)) =
           heap s @ map (\<lambda>(c, cc). WrappedFunction
                          \<lparr>map_native_context = LoadNativeContext H cc,
                           kWrappedTargetFunctionOffset = f,
                           kContextOffset = cc\<rparr>) rs \<and>
         (rs \<noteq> [] \<longrightarrow>
            fst (wrap_chain H rs v s) = Inr (HeapObject (length (heap s) + length rs - 1)))"
  using f v
proof (induction rs arbitrary: v s)
  case Nil
  then show ?case by simp
next
  case (Cons r rs)
  obtain c cc where r: "r = (c, cc)" by (cases r)
  from Cons.prems have cv: "IsCallable (heap s) v"
    using wrapper_target_IsJSWrappedFunction IsJSWrappedFunction_IsCallable by blast
  from Cons.prems have et: "effectiveTarget (heap s) v = f"
    using effectiveTarget_wrapper effectiveTarget_other by blast
  let ?w = "HeapObject (length (heap s))"
  let ?obj = "WrappedFunction \<lparr>map_native_context = LoadNativeContext H cc,
                            kWrappedTargetFunctionOffset = f, kContextOffset = cc\<rparr>"
  obtain s1 where step: "ShadowRealmGetWrappedValue H c cc v s = (Inr ?w, s1)"
    and h1: "heap s1 = heap s @ [?obj]"
    using cv et by (simp add: wrap_callable)
  have tw: "wrapper_target (heap s1) ?w = Some f"
    by (simp add: h1 wrapper_target_def)
  have f1: "IsCallable (heap s1) f" "\<not> IsJSWrappedFunction (heap s1) f"
    using Cons.prems(1,2) by (simp_all add: h1 IsCallable_append IsJSWrappedFunction_append)
  have ih: "heap (snd (wrap_chain H rs ?w s1)) =
           heap s1 @ map (\<lambda>(c, cc). WrappedFunction
                          \<lparr>map_native_context = LoadNativeContext H cc,
                           kWrappedTargetFunctionOffset = f,
                           kContextOffset = cc\<rparr>) rs \<and>
         (rs \<noteq> [] \<longrightarrow>
            fst (wrap_chain H rs ?w s1) = Inr (HeapObject (length (heap s1) + length rs - 1)))"
    using Cons.IH [OF f1, of ?w] tw by simp
  have eq: "wrap_chain H (r # rs) v s = wrap_chain H rs ?w s1"
    using r step by simp
  show ?case
  proof (cases "rs = []")
    case True
    with eq h1 r show ?thesis by simp
  next
    case False
    then have "length rs \<noteq> 0" by simp
    with ih eq h1 r False show ?thesis by simp
  qed
qed

lemma CallWrappedFunction_throws:
  assumes "checkStackBudget H"
    and "GetFunctionRealm H (heap s) (kContextOffset w) (kWrappedTargetFunctionOffset w) =
           Some target_context"
    and "WrapReceiverAndArguments H (kContextOffset w) target_context receiver args s =
           (Inr wrapped_args, s2)"
    and "CallVarargs H target_context (kWrappedTargetFunctionOffset w) 0 (length args + 1)
           wrapped_args (heap s2) = (Abrupt exn, h4)"
  shows "CallWrappedFunction H ctx w receiver args s =
           (Inl (Throw (BridgedCallFailedError ctx)),
            s2\<lparr>heap := h4,
               trace := trace s2 @
                 [CallTarget target_context (kWrappedTargetFunctionOffset w) wrapped_args]\<rparr>)"
  using assms
  by (simp add: CallWrappedFunction_def PerformStackCheck_def Let_def log_event_def)


section \<open>The claims\<close>

subsection \<open>ShadowRealmGetWrappedValue\<close>

text \<open>
  C4. For every primitive value \<open>p\<close> and any pair of realm arguments, the wrap returns
  \<open>p\<close> itself; the heap is left as it was (nothing is allocated), and the only change of
  the state is the trace entry of the call.
\<close>

theorem primitive_pass_through:
  assumes "IsPrimitive (heap s) p"
  shows "ShadowRealmGetWrappedValue H c cc p s =
           (Inr p, s\<lparr>trace := trace s @ [GetWrappedValue c cc p]\<rparr>)"
  using assms by (simp add: wrap_primitive log_event_def)

theorem primitive_pass_through_witness:
  "IsPrimitive (heap state0) (HeapObject 2) \<and>
   ShadowRealmGetWrappedValue host0 1 2 (HeapObject 2) state0 =
     (Inr (HeapObject 2), \<lparr>heap = heap0, trace = [GetWrappedValue 1 2 (HeapObject 2)]\<rparr>)"
proof -
  have h: "IsPrimitive (heap state0) (HeapObject 2)"
    by (simp add: model_defs example_defs)
  show ?thesis
    using h primitive_pass_through [OF h, of host0 1 2] by (simp add: state0_def)
qed

text \<open>
  C10. For every callable value, a wrapper or not, and whatever the realm arguments, the
  wrap returns a reference to a newly allocated wrapped function: its address was not in
  use before, the objects already in the heap are untouched, and the result differs from
  the value wrapped. Wrapping the same value a second time allocates again, so the two
  results differ from each other.
\<close>

theorem wrap_allocates_fresh_wrapper:
  assumes "IsCallable (heap s) v"
    and "ShadowRealmGetWrappedValue H c cc v s = (r1, s1)"
    and "ShadowRealmGetWrappedValue H c' cc' v s1 = (r2, s2)"
  shows "r1 = Inr (HeapObject (length (heap s))) \<and>
         LoadHeapObject (heap s) (HeapObject (length (heap s))) = None \<and>
         IsJSWrappedFunction (heap s1) (HeapObject (length (heap s))) \<and>
         take (length (heap s)) (heap s1) = heap s \<and>
         length (heap s1) = length (heap s) + 1 \<and>
         r1 \<noteq> Inr v \<and>
         r2 = Inr (HeapObject (length (heap s) + 1)) \<and>
         IsJSWrappedFunction (heap s2) (HeapObject (length (heap s) + 1)) \<and>
         r2 \<noteq> r1 \<and> r2 \<noteq> Inr v"
proof -
  from assms(1) obtain a where a: "a < length (heap s)" "v = HeapObject a"
    using IsCallable_allocated by blast
  from assms(1,2) have 1: "r1 = Inr (HeapObject (length (heap s)))"
    and h1: "heap s1 = heap s @ [WrappedFunction
                \<lparr>map_native_context = LoadNativeContext H cc,
                 kWrappedTargetFunctionOffset = effectiveTarget (heap s) v,
                 kContextOffset = cc\<rparr>]"
    by (auto simp: wrap_callable)
  from assms(1) h1 have c1: "IsCallable (heap s1) v"
    by (simp add: IsCallable_append)
  from c1 assms(3) have 2: "r2 = Inr (HeapObject (length (heap s1)))"
    and h2: "heap s2 = heap s1 @ [WrappedFunction
                \<lparr>map_native_context = LoadNativeContext H cc',
                 kWrappedTargetFunctionOffset = effectiveTarget (heap s1) v,
                 kContextOffset = cc'\<rparr>]"
    by (auto simp: wrap_callable)
  show ?thesis
    using a 1 2 h1 h2 by (simp add: IsJSWrappedFunction_def nth_append)
qed

theorem wrap_allocates_fresh_wrapper_witness:
  "IsCallable (heap state0) (HeapObject 3) \<and>
   fst (ShadowRealmGetWrappedValue host0 1 2 (HeapObject 3) state0) = Inr (HeapObject 4) \<and>
   fst (ShadowRealmGetWrappedValue host0 1 2 (HeapObject 3)
          (snd (ShadowRealmGetWrappedValue host0 1 2 (HeapObject 3) state0))) =
     Inr (HeapObject 5)"
proof -
  have h: "IsCallable (heap state0) (HeapObject 3)"
    by (simp add: model_defs example_defs)
  have l: "length (heap state0) = 4"
    by (simp add: example_defs)
  show ?thesis
    using h l wrap_allocates_fresh_wrapper [OF h surjective_pairing surjective_pairing, of host0 1 2 1 2]
    by simp
qed

text \<open>
  C2. Wrapping a wrapper \<open>v\<close> with target \<open>t\<close> allocates a new wrapped function,
  at an address not in use before and so different from \<open>v\<close>, whose target is \<open>t\<close>,
  and returns it. Wrapping a callable \<open>f\<close> that is no wrapper any number of times, at
  least once, with any realm arguments, allocates one wrapped function for each wrap,
  every one with the target \<open>f\<close>, and ends in the last of them. In a heap where the
  target of every wrapper is a callable object and no wrapper, a wrap leaves such a heap,
  the target \<open>t\<close> of a wrapper \<open>v\<close> is not \<open>v\<close>, and the wrapper made for a
  callable value is the new object, with a target that is no wrapper.
\<close>

theorem wrapper_target_never_wrapper:
  "(wrapper_target (heap s) v = Some t \<longrightarrow>
      ShadowRealmGetWrappedValue H c cc v s =
        (Inr (HeapObject (length (heap s))),
         s\<lparr>heap := heap s @ [WrappedFunction \<lparr>map_native_context = LoadNativeContext H cc,
                               kWrappedTargetFunctionOffset = t,
                               kContextOffset = cc\<rparr>],
           trace := trace s @ [GetWrappedValue c cc v]\<rparr>) \<and>
      HeapObject (length (heap s)) \<noteq> v \<and>
      LoadHeapObject (heap s) (HeapObject (length (heap s))) = None \<and>
      wrap_result_target (ShadowRealmGetWrappedValue H c cc v s) = Some t) \<and>
   (IsCallable (heap s) f \<and> \<not> IsJSWrappedFunction (heap s) f \<and> rs \<noteq> [] \<longrightarrow>
      fst (wrap_chain H rs f s) = Inr (HeapObject (length (heap s) + length rs - 1)) \<and>
      heap (snd (wrap_chain H rs f s)) =
        heap s @ map (\<lambda>(c, cc). WrappedFunction
                       \<lparr>map_native_context = LoadNativeContext H cc,
                        kWrappedTargetFunctionOffset = f,
                        kContextOffset = cc\<rparr>) rs \<and>
      wrap_result_target (wrap_chain H rs f s) = Some f) \<and>
   (target_invariant (heap s) \<longrightarrow>
      target_invariant (heap (snd (ShadowRealmGetWrappedValue H c cc v s))) \<and>
      (wrapper_target (heap s) v = Some t \<longrightarrow> t \<noteq> v) \<and>
      (IsCallable (heap s) v \<longrightarrow>
         fst (ShadowRealmGetWrappedValue H c cc v s) = Inr (HeapObject (length (heap s))) \<and>
         HeapObject (length (heap s)) \<noteq> v \<and>
         wrap_result_target (ShadowRealmGetWrappedValue H c cc v s) =
           Some (effectiveTarget (heap s) v) \<and>
         \<not> IsJSWrappedFunction (heap (snd (ShadowRealmGetWrappedValue H c cc v s)))
             (effectiveTarget (heap s) v)))"
proof (intro conjI impI)
  assume t: "wrapper_target (heap s) v = Some t"
  then show w: "ShadowRealmGetWrappedValue H c cc v s =
        (Inr (HeapObject (length (heap s))),
         s\<lparr>heap := heap s @ [WrappedFunction \<lparr>map_native_context = LoadNativeContext H cc,
                               kWrappedTargetFunctionOffset = t,
                               kContextOffset = cc\<rparr>],
           trace := trace s @ [GetWrappedValue c cc v]\<rparr>)"
    by (rule wrap_wrapper)
  from wrapper_target_allocated [OF t] show "HeapObject (length (heap s)) \<noteq> v"
    by auto
  show "LoadHeapObject (heap s) (HeapObject (length (heap s))) = None"
    by simp
  show "wrap_result_target (ShadowRealmGetWrappedValue H c cc v s) = Some t"
    unfolding w by (simp add: wrapper_target_def)
next
  assume a: "IsCallable (heap s) f \<and> \<not> IsJSWrappedFunction (heap s) f \<and> rs \<noteq> []"
  then have ch: "heap (snd (wrap_chain H rs f s)) =
           heap s @ map (\<lambda>(c, cc). WrappedFunction
                          \<lparr>map_native_context = LoadNativeContext H cc,
                           kWrappedTargetFunctionOffset = f,
                           kContextOffset = cc\<rparr>) rs \<and>
         (rs \<noteq> [] \<longrightarrow>
            fst (wrap_chain H rs f s) = Inr (HeapObject (length (heap s) + length rs - 1)))"
    by (intro wrap_chain_heap) simp_all
  with a show "fst (wrap_chain H rs f s) = Inr (HeapObject (length (heap s) + length rs - 1))"
    by simp
  from ch show "heap (snd (wrap_chain H rs f s)) =
        heap s @ map (\<lambda>(c, cc). WrappedFunction
                       \<lparr>map_native_context = LoadNativeContext H cc,
                        kWrappedTargetFunctionOffset = f,
                        kContextOffset = cc\<rparr>) rs"
    by simp
  from a show "wrap_result_target (wrap_chain H rs f s) = Some f"
    by (intro wrap_chain_target) simp_all
next
  assume "target_invariant (heap s)"
  then show "target_invariant (heap (snd (ShadowRealmGetWrappedValue H c cc v s)))"
    by (rule wrap_preserves_target_invariant)
next
  assume inv: "target_invariant (heap s)" and t: "wrapper_target (heap s) v = Some t"
  from t have "IsJSWrappedFunction (heap s) v"
    by (rule wrapper_target_IsJSWrappedFunction)
  with target_invariant_wrapper [OF inv t] show "t \<noteq> v"
    by auto
next
  assume inv: "target_invariant (heap s)" and cv: "IsCallable (heap s) v"
  from cv show "fst (ShadowRealmGetWrappedValue H c cc v s) = Inr (HeapObject (length (heap s)))"
    by (simp add: wrap_callable)
  from IsCallable_allocated [OF cv] show "HeapObject (length (heap s)) \<noteq> v"
    by auto
  from cv show "wrap_result_target (ShadowRealmGetWrappedValue H c cc v s) =
      Some (effectiveTarget (heap s) v)"
    by (rule wrap_callable_target)
  from effectiveTarget_invariant [OF inv cv] cv
  show "\<not> IsJSWrappedFunction (heap (snd (ShadowRealmGetWrappedValue H c cc v s)))
      (effectiveTarget (heap s) v)"
    by (simp add: wrap_callable IsJSWrappedFunction_append)
qed

theorem wrapper_target_never_wrapper_witness:
  "target_invariant (heap state0) \<and>
   wrapper_target (heap state0) (HeapObject 3) = Some (HeapObject 0) \<and>
   ShadowRealmGetWrappedValue host0 2 1 (HeapObject 3) state0 =
     (Inr (HeapObject 4),
      \<lparr>heap = heap0 @ [WrappedFunction wrapper0],
       trace = [GetWrappedValue 2 1 (HeapObject 3)]\<rparr>) \<and>
   wrap_result_target (ShadowRealmGetWrappedValue host0 2 1 (HeapObject 3) state0) =
     Some (HeapObject 0) \<and>
   fst (wrap_chain host0 [(1, 2), (2, 1), (1, 2)] (HeapObject 0) state0) =
     Inr (HeapObject 6) \<and>
   wrap_result_target (wrap_chain host0 [(1, 2), (2, 1), (1, 2)] (HeapObject 0) state0) =
     Some (HeapObject 0) \<and>
   target_invariant (heap (snd (ShadowRealmGetWrappedValue host0 2 1 (HeapObject 3) state0)))"
proof -
  let ?rs = "[(1, 2), (2, 1), (1, 2)] :: (Context \<times> Context) list"
  have h: "target_invariant (heap state0)"
    by (simp add: target_invariant_def model_defs example_defs)
  have t: "wrapper_target (heap state0) (HeapObject 3) = Some (HeapObject 0)"
    by (simp add: wrapper_target_def example_defs)
  have f: "IsCallable (heap state0) (HeapObject 0) \<and>
           \<not> IsJSWrappedFunction (heap state0) (HeapObject 0) \<and> ?rs \<noteq> []"
    by (simp add: model_defs example_defs)
  note T = wrapper_target_never_wrapper [of state0 "HeapObject 3" "HeapObject 0" host0 2 1
        "HeapObject 0" ?rs]
  from T t have A: "ShadowRealmGetWrappedValue host0 2 1 (HeapObject 3) state0 =
        (Inr (HeapObject (length (heap state0))),
         state0\<lparr>heap := heap state0 @
                    [WrappedFunction \<lparr>map_native_context = LoadNativeContext host0 1,
                               kWrappedTargetFunctionOffset = HeapObject 0,
                               kContextOffset = 1\<rparr>],
           trace := trace state0 @ [GetWrappedValue 2 1 (HeapObject 3)]\<rparr>)"
    by blast
  have A': "ShadowRealmGetWrappedValue host0 2 1 (HeapObject 3) state0 =
     (Inr (HeapObject 4),
      \<lparr>heap = heap0 @ [WrappedFunction wrapper0],
       trace = [GetWrappedValue 2 1 (HeapObject 3)]\<rparr>)"
    unfolding A by (simp add: example_defs)
  from T t have B: "wrap_result_target (ShadowRealmGetWrappedValue host0 2 1 (HeapObject 3)
        state0) = Some (HeapObject 0)"
    by blast
  from T f have C: "fst (wrap_chain host0 ?rs (HeapObject 0) state0) =
        Inr (HeapObject (length (heap state0) + length ?rs - 1))"
    by blast
  have C': "fst (wrap_chain host0 ?rs (HeapObject 0) state0) = Inr (HeapObject 6)"
    unfolding C by (simp add: example_defs)
  from T f have D: "wrap_result_target (wrap_chain host0 ?rs (HeapObject 0) state0) =
        Some (HeapObject 0)"
    by blast
  from T h have E: "target_invariant
        (heap (snd (ShadowRealmGetWrappedValue host0 2 1 (HeapObject 3) state0)))"
    by blast
  from h t A' B C' D E show ?thesis
    by blast
qed

text \<open>
  C6, as amended. The wrap takes the context first and the creation context second, and
  it is the creation context, the second realm argument, that becomes the realm field of
  the new wrapper, not the first. The counterexample wraps a callable with the realm
  arguments 1 and 2: the realm of the wrapper is not 1.
\<close>

theorem wrapper_realm_is_creation_context:
  assumes "IsCallable (heap s) v"
  shows "fst (ShadowRealmGetWrappedValue H c cc v s) = Inr (HeapObject (length (heap s))) \<and>
         LoadHeapObject (heap s) (HeapObject (length (heap s))) = None \<and>
         wrap_result_realm (ShadowRealmGetWrappedValue H c cc v s) = Some cc \<and>
         (c \<noteq> cc \<longrightarrow> wrap_result_realm (ShadowRealmGetWrappedValue H c cc v s) \<noteq> Some c)"
  using assms by (simp add: wrap_callable_realm) (simp add: wrap_callable)

theorem wrapper_realm_is_creation_context_witness:
  "IsCallable (heap state0) (HeapObject 0) \<and>
   fst (ShadowRealmGetWrappedValue host0 1 2 (HeapObject 0) state0) = Inr (HeapObject 4) \<and>
   wrap_result_realm (ShadowRealmGetWrappedValue host0 1 2 (HeapObject 0) state0) = Some 2 \<and>
   wrap_result_realm (ShadowRealmGetWrappedValue host0 1 2 (HeapObject 0) state0) \<noteq> Some 1"
proof -
  have h: "IsCallable (heap state0) (HeapObject 0)"
    by (simp add: model_defs example_defs)
  have l: "length (heap state0) = 4"
    by (simp add: example_defs)
  show ?thesis
    using h l wrapper_realm_is_creation_context [OF h, of host0 1 2] by simp
qed

theorem wrapper_realm_not_first_argument:
  "wrap_result_realm (ShadowRealmGetWrappedValue host0 1 2 (HeapObject 0) state0) \<noteq> Some 1"
  by (simp add: model_defs example_defs wrapper_realm_def)

subsection \<open>CallWrappedFunction\<close>

text \<open>
  C7. The stack check comes first: when the budget is exceeded, the builtin throws the
  stack overflow error, attributed to its context, and returns the state it was given,
  whatever the wrapper, its target, the receiver and the arguments are. So the activation
  has no event (no wrap was entered, the target was not called) and the heap no new
  object.
\<close>

theorem stack_check_first:
  assumes "\<not> checkStackBudget H"
  shows "CallWrappedFunction H ctx w receiver args s =
           (Inl (Throw (StackOverflowError ctx)), s) \<and>
         activation s (snd (CallWrappedFunction H ctx w receiver args s)) = [] \<and>
         heap (snd (CallWrappedFunction H ctx w receiver args s)) = heap s"
  using assms by (simp add: CallWrappedFunction_def PerformStackCheck_def activation_def)

theorem stack_check_first_witness:
  "\<not> checkStackBudget exhausted_host \<and>
   CallWrappedFunction exhausted_host 1 wrapper0 Undefined [Smi 10, HeapObject 1] state0 =
     (Inl (Throw (StackOverflowError 1)), state0)"
proof -
  have h: "\<not> checkStackBudget exhausted_host"
    by (simp add: example_defs)
  show ?thesis
    using h stack_check_first [OF h, of 1 wrapper0 Undefined "[Smi 10, HeapObject 1]" state0]
    by simp
qed

text \<open>
  C9. When the target of the wrapper is a callable object, the resolution of the target
  realm does not leave by its not-callable exit, and the builtin does not end at
  \<^verbatim>\<open>Unreachable()\<close>. That end is an abort and no thrown error (\<open>Unreachable\<close> is not
  a \<open>Throw\<close>), so nothing is signalled from this path. The precondition holds by
  construction: in a heap that satisfies the invariant of section 3, the wrapper that a
  wrap makes for a callable value has a callable target.
\<close>

theorem target_not_callable_unreachable:
  "(IsCallable (heap s) (kWrappedTargetFunctionOffset w) \<longrightarrow>
      GetFunctionRealm H (heap s) (kContextOffset w) (kWrappedTargetFunctionOffset w) \<noteq> None \<and>
      fst (CallWrappedFunction H ctx w receiver args s) \<noteq> Inl Unreachable) \<and>
   (target_invariant (heap s0) \<and> IsCallable (heap s0) v \<and>
    ShadowRealmGetWrappedValue H' c cc v s0 = (Inr wv, s) \<and>
    LoadHeapObject (heap s) wv = Some (WrappedFunction w) \<longrightarrow>
      IsCallable (heap s) (kWrappedTargetFunctionOffset w))"
proof (intro conjI impI)
  assume "IsCallable (heap s) (kWrappedTargetFunctionOffset w)"
  then show "GetFunctionRealm H (heap s) (kContextOffset w) (kWrappedTargetFunctionOffset w) \<noteq>
      None"
    by (simp add: GetFunctionRealm_def)
next
  assume "IsCallable (heap s) (kWrappedTargetFunctionOffset w)"
  then show "fst (CallWrappedFunction H ctx w receiver args s) \<noteq> Inl Unreachable"
    by (auto simp: CallWrappedFunction_def GetFunctionRealm_def Let_def
        split: option.splits prod.splits sum.splits completion.splits)
next
  assume "target_invariant (heap s0) \<and> IsCallable (heap s0) v \<and>
    ShadowRealmGetWrappedValue H' c cc v s0 = (Inr wv, s) \<and>
    LoadHeapObject (heap s) wv = Some (WrappedFunction w)"
  then show "IsCallable (heap s) (kWrappedTargetFunctionOffset w)"
    using wrap_target_callable by blast
qed

theorem target_not_callable_unreachable_witness:
  "target_invariant (heap state0) \<and> IsCallable (heap state0) (HeapObject 3) \<and>
   ShadowRealmGetWrappedValue host0 2 1 (HeapObject 3) state0 =
     (Inr (HeapObject 4),
      \<lparr>heap = heap0 @ [WrappedFunction wrapper0],
       trace = [GetWrappedValue 2 1 (HeapObject 3)]\<rparr>) \<and>
   IsCallable (heap0 @ [WrappedFunction wrapper0]) (kWrappedTargetFunctionOffset wrapper0) \<and>
   GetFunctionRealm host0 (heap0 @ [WrappedFunction wrapper0]) (kContextOffset wrapper0)
     (kWrappedTargetFunctionOffset wrapper0) \<noteq> None \<and>
   fst (CallWrappedFunction host0 1 wrapper0 Undefined []
          \<lparr>heap = heap0 @ [WrappedFunction wrapper0],
           trace = [GetWrappedValue 2 1 (HeapObject 3)]\<rparr>) \<noteq> Inl Unreachable"
proof -
  let ?s = "\<lparr>heap = heap0 @ [WrappedFunction wrapper0],
             trace = [GetWrappedValue 2 1 (HeapObject 3)]\<rparr>"
  have i: "target_invariant (heap state0) \<and> IsCallable (heap state0) (HeapObject 3)"
    by (simp add: target_invariant_def model_defs example_defs)
  have w: "ShadowRealmGetWrappedValue host0 2 1 (HeapObject 3) state0 = (Inr (HeapObject 4), ?s)"
    by (simp add: model_defs example_defs)
  have l: "LoadHeapObject (heap ?s) (HeapObject 4) = Some (WrappedFunction wrapper0)"
    by (simp add: example_defs)
  show ?thesis
    using i w l
      target_not_callable_unreachable [of ?s wrapper0 host0 1 Undefined "[]" state0
        "HeapObject 3" host0 2 1 "HeapObject 4"]
    by simp
qed

text \<open>
  C1. Every exception of the target call ends in one \<open>BridgedCallFailedError\<close>, in
  which the exception does not occur. The error is thrown in the context \<open>ctx\<close> in
  which the builtin was entered, and not in the caller context that the builtin reads
  from the wrapper, the one its note at step 5 names and the one in which the wrap of a
  non-callable receiver throws. Entered in context 3 with a wrapper made for realm 1
  whose target throws, the builtin attributes the error to realm 3; entered in the same
  context with a non-callable receiver, it attributes the error to realm 1.
\<close>

theorem call_failure_thrown_in_kContext:
  "kContextOffset wrapper0 = 1 \<and>
   CallWrappedFunction (throwing_host (HeapObject 1)) 3 wrapper0 Undefined [Smi 10] state0 =
     (Inl (Throw (BridgedCallFailedError 3)),
      \<lparr>heap = heap0,
       trace = [GetWrappedValue 1 2 Undefined, GetWrappedValue 1 2 (Smi 10),
                CallTarget 2 (HeapObject 0) [Undefined, Smi 10]]\<rparr>) \<and>
   fst (CallWrappedFunction (throwing_host (HeapObject 1)) 3 wrapper0 Undefined [Smi 10]
          state0) \<noteq>
     Inl (Throw (BridgedCallFailedError (kContextOffset wrapper0))) \<and>
   fst (CallWrappedFunction (throwing_host (HeapObject 1)) 3 wrapper0 (HeapObject 1) [Smi 10]
          state0) =
     Inl (Throw (NotCallableError (kContextOffset wrapper0)))"
  by (simp add: invoke_defs model_defs example_defs)

text \<open>
  C3. Let \<open>w\<close> wrap the callable \<open>f\<close> for the realm \<open>R1\<close>, and let \<open>R2\<close> own
  \<open>f\<close>. The builtin resolves the target realm to \<open>R2\<close>. Its marshalling, the wrap of
  the receiver followed by the loop over the arguments, is the wrap of the receiver and of
  each argument, one by one and in index order, with the realm arguments \<open>R1\<close> and
  \<open>R2\<close>. When it succeeds with the values \<open>ws\<close> and the call of \<open>f\<close> with \<open>ws\<close>
  in \<open>R2\<close> returns \<open>r\<close>, the builtin returns the wrap of \<open>r\<close> with both realm
  arguments \<open>R1\<close>, and the trace of the activation is: the wraps of the receiver and
  the arguments in order, the call, the wrap of the result.
\<close>

theorem invoke_round_trip:
  assumes "checkStackBudget H"
    and "kWrappedTargetFunctionOffset w = f"
    and "kContextOffset w = R1"
    and "IsCallable (heap s) f"
    and "ownerRealmOf H (heap s) f = R2"
    and "wrap_in_order H R1 R2 (receiver # args) s = (Inr ws, s1)"
    and "CallVarargs H R2 f 0 (length args + 1) ws (heap s1) = (Normal r, h2)"
  shows "GetFunctionRealm H (heap s) R1 f = Some R2 \<and>
         WrapReceiverAndArguments H R1 R2 receiver args s =
           wrap_in_order H R1 R2 (receiver # args) s \<and>
         length ws = length args + 1 \<and>
         trace s1 = trace s @ map (GetWrappedValue R1 R2) (receiver # args) \<and>
         CallWrappedFunction H ctx w receiver args s =
           (case ShadowRealmGetWrappedValue H R1 R1 r
                   (s1\<lparr>trace := trace s1 @ [CallTarget R2 f ws], heap := h2\<rparr>) of
              (Inl e, s3) \<Rightarrow> (Inl (Throw e), s3)
            | (Inr v, s3) \<Rightarrow> (Inr v, s3)) \<and>
         trace (snd (CallWrappedFunction H ctx w receiver args s)) =
           trace s @ map (GetWrappedValue R1 R2) (receiver # args) @
           [CallTarget R2 f ws, GetWrappedValue R1 R1 r]"
proof -
  have c: "IsCallable (heap s) (kWrappedTargetFunctionOffset w)"
    using assms(2,4) by simp
  have m: "wrap_in_order H (kContextOffset w)
             (ownerRealmOf H (heap s) (kWrappedTargetFunctionOffset w)) (receiver # args) s =
             (Inr ws, s1)"
    using assms(2,3,5,6) by simp
  have k: "CallVarargs H (ownerRealmOf H (heap s) (kWrappedTargetFunctionOffset w))
             (kWrappedTargetFunctionOffset w) 0 (length args + 1) ws (heap s1) = (Normal r, h2)"
    using assms(2,5,7) by simp
  have 1: "GetFunctionRealm H (heap s) R1 f = Some R2"
    using assms(4,5) by (simp add: GetFunctionRealm_def)
  have 2: "WrapReceiverAndArguments H R1 R2 receiver args s =
             wrap_in_order H R1 R2 (receiver # args) s"
    by (rule WrapReceiverAndArguments_wrap_in_order)
  have 3: "length ws = length args + 1"
    and 4: "trace s1 = trace s @ map (GetWrappedValue R1 R2) (receiver # args)"
    using wrap_in_order_success [OF assms(6)] by simp_all
  have 5: "CallWrappedFunction H ctx w receiver args s =
           (case ShadowRealmGetWrappedValue H R1 R1 r
                   (s1\<lparr>trace := trace s1 @ [CallTarget R2 f ws], heap := h2\<rparr>) of
              (Inl e, s3) \<Rightarrow> (Inl (Throw e), s3)
            | (Inr v, s3) \<Rightarrow> (Inr v, s3))"
    using CallWrappedFunction_returns [OF assms(1) c m k, of ctx] assms(2,3,5) by simp
  have 6: "trace (snd (CallWrappedFunction H ctx w receiver args s)) =
           trace s @ map (GetWrappedValue R1 R2) (receiver # args) @
           [CallTarget R2 f ws, GetWrappedValue R1 R1 r]"
    using CallWrappedFunction_returns_trace [OF assms(1) c m k, of ctx] assms(2,3,5) by simp
  from 1 2 3 4 5 6 show ?thesis by blast
qed

theorem invoke_round_trip_witness:
  "wrap_in_order host0 1 2 (Undefined # [Smi 10, HeapObject 0]) state0 =
     (Inr [Undefined, Smi 10, HeapObject 4],
      \<lparr>heap = heap0 @ [WrappedFunction \<lparr>map_native_context = 2,
                          kWrappedTargetFunctionOffset = HeapObject 0, kContextOffset = 2\<rparr>],
       trace = [GetWrappedValue 1 2 Undefined, GetWrappedValue 1 2 (Smi 10),
                GetWrappedValue 1 2 (HeapObject 0)]\<rparr>) \<and>
   CallWrappedFunction host0 1 wrapper0 Undefined [Smi 10, HeapObject 0] state0 =
     (Inr (Smi 7),
      \<lparr>heap = heap0 @ [WrappedFunction \<lparr>map_native_context = 2,
                          kWrappedTargetFunctionOffset = HeapObject 0, kContextOffset = 2\<rparr>],
       trace = [GetWrappedValue 1 2 Undefined, GetWrappedValue 1 2 (Smi 10),
                GetWrappedValue 1 2 (HeapObject 0),
                CallTarget 2 (HeapObject 0) [Undefined, Smi 10, HeapObject 4],
                GetWrappedValue 1 1 (Smi 7)]\<rparr>)"
proof -
  let ?h1 = "heap0 @ [WrappedFunction \<lparr>map_native_context = 2,
                          kWrappedTargetFunctionOffset = HeapObject 0, kContextOffset = 2\<rparr>]"
  let ?s1 = "\<lparr>heap = ?h1,
              trace = [GetWrappedValue 1 2 Undefined, GetWrappedValue 1 2 (Smi 10),
                       GetWrappedValue 1 2 (HeapObject 0)]\<rparr>"
  let ?ws = "[Undefined, Smi 10, HeapObject 4]"
  have a: "checkStackBudget host0"
    by (simp add: example_defs)
  have b: "kWrappedTargetFunctionOffset wrapper0 = HeapObject 0"
    and c: "kContextOffset wrapper0 = 1"
    by (simp_all add: example_defs)
  have d: "IsCallable (heap state0) (HeapObject 0)"
    by (simp add: model_defs example_defs)
  have e: "ownerRealmOf host0 (heap state0) (HeapObject 0) = 2"
    by (simp add: example_defs)
  have f: "wrap_in_order host0 1 2 (Undefined # [Smi 10, HeapObject 0]) state0 = (Inr ?ws, ?s1)"
    by (simp add: model_defs example_defs)
  have g: "CallVarargs host0 2 (HeapObject 0) 0 (length [Smi 10, HeapObject 0] + 1) ?ws
             (heap ?s1) = (Normal (Smi 7), ?h1)"
    by (simp add: example_defs)
  have w: "ShadowRealmGetWrappedValue host0 1 1 (Smi 7)
             (?s1\<lparr>trace := trace ?s1 @ [CallTarget 2 (HeapObject 0) ?ws], heap := ?h1\<rparr>) =
           (Inr (Smi 7),
            \<lparr>heap = ?h1,
             trace = [GetWrappedValue 1 2 Undefined, GetWrappedValue 1 2 (Smi 10),
                      GetWrappedValue 1 2 (HeapObject 0), CallTarget 2 (HeapObject 0) ?ws,
                      GetWrappedValue 1 1 (Smi 7)]\<rparr>)"
    by (simp add: model_defs)
  show ?thesis
    using f w invoke_round_trip [OF a b c d e f g, of 1] by simp
qed

text \<open>
  C5. A non-callable object is rejected by the wrap with the error for a value that is
  not callable, whatever the realm arguments (the first of them is the realm the error is
  attributed to), and the heap is left as it was. When the stack check passes, the target
  of the wrapper is callable and such an object is the receiver or one of the arguments,
  the builtin throws that error, attributed to the realm of the wrapper, and the events of
  the activation are wrap entries only: the target is not called.
\<close>

theorem non_callable_rejected:
  assumes "IsNonCallableObject (heap s) v"
  shows "ShadowRealmGetWrappedValue H c cc v s =
           (Inl (NotCallableError c), s\<lparr>trace := trace s @ [GetWrappedValue c cc v]\<rparr>) \<and>
         (checkStackBudget H \<and> IsCallable (heap s) (kWrappedTargetFunctionOffset w) \<and>
          v \<in> set (receiver # args) \<longrightarrow>
            fst (CallWrappedFunction H ctx w receiver args s) =
              Inl (Throw (NotCallableError (kContextOffset w))) \<and>
            list_all is_wrap_entry
              (activation s (snd (CallWrappedFunction H ctx w receiver args s))))"
proof (intro conjI impI)
  show "ShadowRealmGetWrappedValue H c cc v s =
      (Inl (NotCallableError c), s\<lparr>trace := trace s @ [GetWrappedValue c cc v]\<rparr>)"
    using assms by (simp add: wrap_non_callable log_event_def)
next
  assume a: "checkStackBudget H \<and> IsCallable (heap s) (kWrappedTargetFunctionOffset w) \<and>
             v \<in> set (receiver # args)"
  let ?R1 = "kContextOffset w"
  let ?R2 = "ownerRealmOf H (heap s) (kWrappedTargetFunctionOffset w)"
  obtain r2 s2 where m: "wrap_in_order H ?R1 ?R2 (receiver # args) s = (r2, s2)"
    by (cases "wrap_in_order H ?R1 ?R2 (receiver # args) s")
  from a assms have "\<exists>x \<in> set (receiver # args). IsNonCallableObject (heap s) x"
    by blast
  from wrap_in_order_non_callable [OF this, of H ?R1 ?R2] m
  have r2: "r2 = Inl (NotCallableError ?R1)"
    by simp
  have inv: "CallWrappedFunction H ctx w receiver args s = (Inl (Throw (NotCallableError ?R1)), s2)"
    using a m r2
    by (simp add: CallWrappedFunction_def PerformStackCheck_def GetFunctionRealm_def Let_def
        WrapReceiverAndArguments_wrap_in_order)
  then show "fst (CallWrappedFunction H ctx w receiver args s) =
      Inl (Throw (NotCallableError (kContextOffset w)))"
    by simp
  from wrap_in_order_effect [OF m] obtain k where
    "trace s2 = trace s @ map (GetWrappedValue ?R1 ?R2) (take k (receiver # args))"
    by blast
  then have "activation s s2 = map (GetWrappedValue ?R1 ?R2) (take k (receiver # args))"
    by (rule activation_append)
  then show "list_all is_wrap_entry
      (activation s (snd (CallWrappedFunction H ctx w receiver args s)))"
    using inv by (simp add: list_all_iff)
qed

theorem non_callable_rejected_witness:
  "IsNonCallableObject (heap state0) (HeapObject 1) \<and>
   ShadowRealmGetWrappedValue host0 1 2 (HeapObject 1) state0 =
     (Inl (NotCallableError 1),
      \<lparr>heap = heap0, trace = [GetWrappedValue 1 2 (HeapObject 1)]\<rparr>) \<and>
   fst (CallWrappedFunction host0 3 wrapper0 Undefined [Smi 10, HeapObject 1, Smi 20] state0) =
     Inl (Throw (NotCallableError 1)) \<and>
   list_all is_wrap_entry
     (activation state0
        (snd (CallWrappedFunction host0 3 wrapper0 Undefined [Smi 10, HeapObject 1, Smi 20]
                state0)))"
proof -
  have h: "IsNonCallableObject (heap state0) (HeapObject 1)"
    by (simp add: model_defs example_defs)
  have a: "checkStackBudget host0 \<and>
           IsCallable (heap state0) (kWrappedTargetFunctionOffset wrapper0) \<and>
           HeapObject 1 \<in> set (Undefined # [Smi 10, HeapObject 1, Smi 20])"
    by (simp add: model_defs example_defs)
  have k: "kContextOffset wrapper0 = 1"
    by (simp add: example_defs)
  show ?thesis
    using h a k
      non_callable_rejected [OF h, of host0 1 2 wrapper0 Undefined
        "[Smi 10, HeapObject 1, Smi 20]" 3]
    by (simp add: state0_def)
qed

text \<open>
  C8, as amended. In an invocation whose marshalling succeeds and whose target returns,
  the wrap is entered once for the receiver and once for each argument before the call of
  the target (\<open>n + 1\<close> entries for \<open>n\<close> arguments, each with the target realm as
  creation context), and once, for the returned value, after it. The counterexample is an
  invocation with two arguments: the wrap is entered three times before the call, not
  four.
\<close>

theorem wrap_entries_per_invocation:
  assumes "checkStackBudget H"
    and "IsCallable (heap s) (kWrappedTargetFunctionOffset w)"
    and "wrap_in_order H (kContextOffset w)
           (ownerRealmOf H (heap s) (kWrappedTargetFunctionOffset w)) (receiver # args) s =
           (Inr ws, s1)"
    and "CallVarargs H (ownerRealmOf H (heap s) (kWrappedTargetFunctionOffset w))
           (kWrappedTargetFunctionOffset w) 0 (length args + 1) ws (heap s1) = (Normal r, h2)"
  shows "activation s (snd (CallWrappedFunction H ctx w receiver args s)) =
           map (GetWrappedValue (kContextOffset w)
                  (ownerRealmOf H (heap s) (kWrappedTargetFunctionOffset w))) (receiver # args) @
           [CallTarget (ownerRealmOf H (heap s) (kWrappedTargetFunctionOffset w))
              (kWrappedTargetFunctionOffset w) ws,
            GetWrappedValue (kContextOffset w) (kContextOffset w) r] \<and>
         wrap_entries_before_call
           (activation s (snd (CallWrappedFunction H ctx w receiver args s))) =
           length args + 1 \<and>
         wrap_entries_after_call
           (activation s (snd (CallWrappedFunction H ctx w receiver args s))) = 1"
proof -
  let ?R1 = "kContextOffset w"
  let ?R2 = "ownerRealmOf H (heap s) (kWrappedTargetFunctionOffset w)"
  let ?call = "CallTarget ?R2 (kWrappedTargetFunctionOffset w) ws"
  let ?evs = "map (GetWrappedValue ?R1 ?R2) (receiver # args) @
              ?call # [GetWrappedValue ?R1 ?R1 r]"
  have "trace (snd (CallWrappedFunction H ctx w receiver args s)) = trace s @ ?evs"
    using CallWrappedFunction_returns_trace [OF assms, of ctx] by simp
  then have act: "activation s (snd (CallWrappedFunction H ctx w receiver args s)) = ?evs"
    by (rule activation_append)
  have "wrap_entries_before_call ?evs = length args + 1"
    unfolding wrap_entries_before_call_def takeWhile_wrap_entries by simp
  moreover have "wrap_entries_after_call ?evs = 1"
    unfolding wrap_entries_after_call_def dropWhile_wrap_entries by simp
  ultimately show ?thesis
    using act by simp
qed

theorem wrap_entries_per_invocation_witness:
  "wrap_in_order host0 1 2 (Undefined # [Smi 10, Smi 20]) state0 =
     (Inr [Undefined, Smi 10, Smi 20],
      \<lparr>heap = heap0,
       trace = [GetWrappedValue 1 2 Undefined, GetWrappedValue 1 2 (Smi 10),
                GetWrappedValue 1 2 (Smi 20)]\<rparr>) \<and>
   activation state0
     (snd (CallWrappedFunction host0 1 wrapper0 Undefined [Smi 10, Smi 20] state0)) =
     [GetWrappedValue 1 2 Undefined, GetWrappedValue 1 2 (Smi 10), GetWrappedValue 1 2 (Smi 20),
      CallTarget 2 (HeapObject 0) [Undefined, Smi 10, Smi 20], GetWrappedValue 1 1 (Smi 7)] \<and>
   wrap_entries_before_call
     (activation state0
        (snd (CallWrappedFunction host0 1 wrapper0 Undefined [Smi 10, Smi 20] state0))) = 3 \<and>
   wrap_entries_after_call
     (activation state0
        (snd (CallWrappedFunction host0 1 wrapper0 Undefined [Smi 10, Smi 20] state0))) = 1"
proof -
  let ?s1 = "\<lparr>heap = heap0,
              trace = [GetWrappedValue 1 2 Undefined, GetWrappedValue 1 2 (Smi 10),
                       GetWrappedValue 1 2 (Smi 20)]\<rparr>"
  let ?ws = "[Undefined, Smi 10, Smi 20]"
  have a: "checkStackBudget host0"
    by (simp add: example_defs)
  have b: "IsCallable (heap state0) (kWrappedTargetFunctionOffset wrapper0)"
    by (simp add: model_defs example_defs)
  have k: "kContextOffset wrapper0 = 1" "kWrappedTargetFunctionOffset wrapper0 = HeapObject 0"
    "ownerRealmOf host0 (heap state0) (HeapObject 0) = 2"
    by (simp_all add: example_defs)
  have c: "wrap_in_order host0 (kContextOffset wrapper0)
             (ownerRealmOf host0 (heap state0) (kWrappedTargetFunctionOffset wrapper0))
             (Undefined # [Smi 10, Smi 20]) state0 = (Inr ?ws, ?s1)"
    by (simp add: model_defs example_defs)
  have d: "CallVarargs host0
             (ownerRealmOf host0 (heap state0) (kWrappedTargetFunctionOffset wrapper0))
             (kWrappedTargetFunctionOffset wrapper0) 0 (length [Smi 10, Smi 20] + 1) ?ws
             (heap ?s1) = (Normal (Smi 7), heap0)"
    by (simp add: example_defs)
  show ?thesis
    using c k wrap_entries_per_invocation [OF a b c d, of 1]
    by (simp add: wrap_entries_before_call_def wrap_entries_after_call_def)
qed

theorem wrap_entries_not_twice_per_argument:
  "wrap_entries_before_call
     (activation state0
        (snd (CallWrappedFunction host0 1 wrapper0 Undefined [Smi 10, Smi 20] state0))) \<noteq>
   2 * length [Smi 10, Smi 20]"
  by (simp add: invoke_defs model_defs example_defs activation_def wrap_entries_before_call_def)

end
